theory Spec2Isabelle
  imports Main "HOL-Library.AList"
begin

section \<open>Text primitives\<close>

text \<open>
  Query texts and pseudo-SQL are modelled as \<open>string\<close>, read as ASCII text: case
  conversion touches the letters A to Z only, a digit is one of 0 to 9 and a word
  character is an ASCII letter, a digit or the underscore.  Characters outside ASCII are
  carried through unchanged.
\<close>

definition upper_letters :: string where
  "upper_letters = ''ABCDEFGHIJKLMNOPQRSTUVWXYZ''"

definition lower_letters :: string where
  "lower_letters = ''abcdefghijklmnopqrstuvwxyz''"

definition digit_chars :: string where
  "digit_chars = ''0123456789''"

definition lower_char :: "char \<Rightarrow> char" where
  "lower_char c = (case map_of (zip upper_letters lower_letters) c of Some d \<Rightarrow> d | None \<Rightarrow> c)"

text \<open>\<^verbatim>\<open>s.lower()\<close>\<close>

definition lower :: "string \<Rightarrow> string" where
  "lower s = map lower_char s"

text \<open>\<^verbatim>\<open>s.startswith(p)\<close>\<close>

fun starts_with :: "string \<Rightarrow> string \<Rightarrow> bool" where
  "starts_with s [] = True"
| "starts_with [] (p # ps) = False"
| "starts_with (c # cs) (p # ps) = (c = p \<and> starts_with cs ps)"

text \<open>\<^verbatim>\<open>s.endswith(p)\<close>\<close>

definition ends_with :: "string \<Rightarrow> string \<Rightarrow> bool" where
  "ends_with s p = starts_with (rev s) (rev p)"

text \<open>\<^verbatim>\<open>sub in s\<close> on strings: \<open>sub\<close> occurs in \<open>s\<close> at some position.\<close>

fun contains :: "string \<Rightarrow> string \<Rightarrow> bool" where
  "contains sub [] = (sub = [])"
| "contains sub (c # cs) = (starts_with (c # cs) sub \<or> contains sub cs)"

text \<open>\<^verbatim>\<open>s.rstrip(ch)\<close> for a single character: every trailing \<open>ch\<close> is removed.\<close>

definition rstrip :: "char \<Rightarrow> string \<Rightarrow> string" where
  "rstrip ch s = rev (dropWhile (\<lambda>c. c = ch) (rev s))"

definition digit_val :: "char \<Rightarrow> nat" where
  "digit_val c = (case map_of (zip digit_chars [0 ..< 10]) c of Some d \<Rightarrow> d | None \<Rightarrow> 0)"

text \<open>\<^verbatim>\<open>int(s)\<close> on a run of decimal digits.\<close>

definition int_of_digits :: "string \<Rightarrow> int" where
  "int_of_digits s = int (foldl (\<lambda>a c. 10 * a + digit_val c) 0 s)"

definition digit_char :: "nat \<Rightarrow> char" where
  "digit_char d = digit_chars ! (d mod 10)"

fun decimal :: "nat \<Rightarrow> string" where
  "decimal n = (if n < 10 then [digit_char n] else decimal (n div 10) @ [digit_char n])"

text \<open>The format \<^verbatim>\<open>{n:02d}\<close> for a non-negative \<open>n\<close>.\<close>

definition fmt_02d :: "nat \<Rightarrow> string" where
  "fmt_02d n = (if n < 10 then CHR ''0'' # decimal n else decimal n)"

section \<open>Regular expressions\<close>

text \<open>
  The fragment of Python's \<^verbatim>\<open>re\<close> that the program's patterns use: literals, the classes
  \<^verbatim>\<open>.\<close>, \<^verbatim>\<open>\d\<close> and \<^verbatim>\<open>\w\<close> under the greedy \<^verbatim>\<open>+\<close> and the lazy \<^verbatim>\<open>+?\<close>, the greedy
  option \<^verbatim>\<open>?\<close>, alternation, sequence and capturing groups.  The matcher is a backtracking
  one: \<open>rx_run\<close> lists every way of matching at the start of the text, most preferred first,
  each with the text left over and the groups captured so far; the match Python reports is
  the head of that list.
\<close>

datatype cls = Dot | Digit | Word

datatype rx =
    Lit string
  | Plus cls
  | PlusLazy cls
  | Opt rx
  | Alt rx rx
  | Seq rx rx
  | Group rx

definition in_cls :: "cls \<Rightarrow> char \<Rightarrow> bool" where
  "in_cls k c = (case k of
       Dot \<Rightarrow> c \<noteq> CHR 0x0A
     | Digit \<Rightarrow> c \<in> set digit_chars
     | Word \<Rightarrow> c \<in> set lower_letters \<or> c \<in> set upper_letters \<or> c \<in> set digit_chars \<or> c = CHR ''_'')"

text \<open>A literal against the start of the text; \<open>ic\<close> is the flag \<^verbatim>\<open>re.IGNORECASE\<close>.\<close>

fun lit_match :: "bool \<Rightarrow> string \<Rightarrow> string \<Rightarrow> string option" where
  "lit_match ic [] s = Some s"
| "lit_match ic (p # ps) [] = None"
| "lit_match ic (p # ps) (c # cs) =
     (if (if ic then lower_char p = lower_char c else p = c) then lit_match ic ps cs else None)"

type_synonym mstate = "string \<times> string list"

fun rx_run :: "bool \<Rightarrow> rx \<Rightarrow> mstate \<Rightarrow> mstate list" where
  "rx_run ic (Lit l) (s, g) = (case lit_match ic l s of Some s' \<Rightarrow> [(s', g)] | None \<Rightarrow> [])"
| "rx_run ic (Plus k) (s, g) =
     map (\<lambda>n. (drop n s, g)) (rev [1 ..< Suc (length (takeWhile (in_cls k) s))])"
| "rx_run ic (PlusLazy k) (s, g) =
     map (\<lambda>n. (drop n s, g)) [1 ..< Suc (length (takeWhile (in_cls k) s))]"
| "rx_run ic (Opt r) st = rx_run ic r st @ [st]"
| "rx_run ic (Alt a b) st = rx_run ic a st @ rx_run ic b st"
| "rx_run ic (Seq a b) st = concat (map (rx_run ic b) (rx_run ic a st))"
| "rx_run ic (Group r) (s, g) =
     map (\<lambda>(s', g'). (s', g' @ [take (length s - length s') s])) (rx_run ic r (s, g))"

text \<open>
  \<^verbatim>\<open>re.search\<close>: the leftmost start position with a match wins; the result is the list
  of captured groups (\<^verbatim>\<open>group(1)\<close> first), or \<open>None\<close>.
\<close>

fun rx_search :: "bool \<Rightarrow> rx \<Rightarrow> string \<Rightarrow> string list option" where
  "rx_search ic r [] = (case rx_run ic r ([], []) of [] \<Rightarrow> None | (s', g) # _ \<Rightarrow> Some g)"
| "rx_search ic r (c # cs) =
     (case rx_run ic r (c # cs, []) of [] \<Rightarrow> rx_search ic r cs | (s', g) # _ \<Rightarrow> Some g)"

fun seqs :: "rx list \<Rightarrow> rx" where
  "seqs [] = Lit []"
| "seqs [r] = r"
| "seqs (r # rs) = Seq r (seqs rs)"

fun alts :: "string list \<Rightarrow> rx" where
  "alts [] = Lit []"
| "alts [l] = Lit l"
| "alts (l # ls) = Alt (Lit l) (alts ls)"

section \<open>Errors, values and the random source\<close>

text \<open>
  Exceptions are values: \<open>AttributeError n\<close> for a reference to an attribute \<open>n\<close> that
  the object does not have (a method the class never defines, or \<^verbatim>\<open>.group\<close> on the
  \<^verbatim>\<open>None\<close> of a failed search), \<open>KeyError k\<close> for a dictionary read at an absent key,
  \<open>IndexError\<close> for a group number the pattern does not have.
\<close>

datatype error = AttributeError string | KeyError string | IndexError

datatype val = IntV int | StrV string

text \<open>A dictionary with string keys, in insertion order.\<close>

type_synonym row = "(string \<times> val) list"

text \<open>
  The state of the shared generator of module \<^verbatim>\<open>random\<close> is the sequence of raw draws
  still to come; each call of \<^verbatim>\<open>randint\<close> or \<^verbatim>\<open>choice\<close> takes the first and leaves
  the rest.  \<^verbatim>\<open>randint(a, b)\<close> is inclusive at both ends.
\<close>

type_synonym rng = "nat \<Rightarrow> nat"

definition randint :: "int \<Rightarrow> int \<Rightarrow> rng \<Rightarrow> int \<times> rng" where
  "randint a b r = (a + int (r 0 mod nat (b - a + 1)), \<lambda>i. r (Suc i))"

definition choice :: "'a list \<Rightarrow> rng \<Rightarrow> 'a \<times> rng" where
  "choice xs r = (xs ! (r 0 mod length xs), \<lambda>i. r (Suc i))"

section \<open>The attributes set by the constructor\<close>

datatype translator =
    TranslateRanking
  | TranslateTemporal
  | TranslateFilter
  | TranslateCount
  | TranslateComparison
  | TranslateAggregation

definition pat_ranking :: rx where
  "pat_ranking = seqs [Lit ''show me '', Opt (Lit ''the ''), Group (alts [''top'', ''bottom'']),
     Lit '' '', Group (Plus Digit), Lit '' '', Group (PlusLazy Dot), Lit '' by '', Group (Plus Dot)]"

definition pat_temporal :: rx where
  "pat_temporal = seqs [Lit ''what '', alts [''were'', ''was''], Lit '' '', Opt (Lit ''the ''),
     Group (Plus Dot), Lit '' '', alts [''last'', ''this'', ''past''], Lit '' '', Group (Plus Dot)]"

definition pat_filter :: rx where
  "pat_filter = seqs [Lit ''list '', Group (Plus Dot), Lit '' with '', Group (Plus Dot), Lit '' '',
     Alt (Lit ''below'') (Alt (Lit ''under'') (Alt (Lit ''above'') (Alt (Lit ''over'')
       (Seq (Lit ''equals t'') (Opt (Lit ''o'')))))),
     Lit '' '', Group (Plus Dot)]"

definition pat_count :: rx where
  "pat_count = seqs [Lit ''how many '', Group (Plus Dot), Lit '' '', alts [''were'', ''was''],
     Lit '' there '', alts [''last'', ''this'', ''past''], Lit '' '', Group (Plus Dot)]"

definition pat_comparison :: rx where
  "pat_comparison = seqs [Lit ''compare '', Group (Plus Dot), Lit '' and '', Group (Plus Dot),
     Lit '' by '', Group (Plus Dot)]"

definition pat_aggregation :: rx where
  "pat_aggregation = seqs [Lit ''what is the average '', Group (Plus Dot), Lit '' for '',
     Group (Plus Dot)]"

text \<open>\<^verbatim>\<open>self.patterns\<close> as the constructor writes it: each pattern with the method it names.\<close>

definition patterns :: "(rx \<times> translator) list" where
  "patterns =
    [(pat_ranking, TranslateRanking),
     (pat_temporal, TranslateTemporal),
     (pat_filter, TranslateFilter),
     (pat_count, TranslateCount),
     (pat_comparison, TranslateComparison),
     (pat_aggregation, TranslateAggregation)]"

text \<open>\<^verbatim>\<open>self.schemas\<close>\<close>

definition schemas :: "(string \<times> string list) list" where
  "schemas =
    [(''customers'', [''id'', ''name'', ''email'', ''revenue'', ''region'', ''join_date'']),
     (''products'', [''id'', ''name'', ''category'', ''price'', ''inventory'', ''supplier'']),
     (''sales'', [''id'', ''product_id'', ''customer_id'', ''amount'', ''date'', ''region'']),
     (''employees'', [''id'', ''name'', ''department'', ''salary'', ''hire_date''])]"

definition gen_name :: "rng \<Rightarrow> val \<times> rng" where
  "gen_name r = (let (s, r1) = choice [''John'', ''Jane'', ''Bob'', ''Alice'', ''Charlie'', ''Eve''] r
                 in (StrV s, r1))"

definition gen_email :: "rng \<Rightarrow> val \<times> rng" where
  "gen_email r = (let (s, r1) = choice [''john'', ''jane'', ''bob''] r
                  in (StrV (s @ ''@example.com''), r1))"

definition gen_revenue :: "rng \<Rightarrow> val \<times> rng" where
  "gen_revenue r = (let (n, r1) = randint 1000 100000 r in (IntV n, r1))"

definition gen_region :: "rng \<Rightarrow> val \<times> rng" where
  "gen_region r = (let (s, r1) = choice [''North'', ''South'', ''East'', ''West''] r in (StrV s, r1))"

definition gen_date :: "rng \<Rightarrow> val \<times> rng" where
  "gen_date r = (let (m, r1) = randint 1 12 r; (d, r2) = randint 1 28 r1
                 in (StrV (''2023-'' @ fmt_02d (nat m) @ ''-'' @ fmt_02d (nat d)), r2))"

definition gen_price :: "rng \<Rightarrow> val \<times> rng" where
  "gen_price r = (let (n, r1) = randint 10 1000 r in (IntV n, r1))"

definition gen_inventory :: "rng \<Rightarrow> val \<times> rng" where
  "gen_inventory r = (let (n, r1) = randint 0 500 r in (IntV n, r1))"

definition gen_amount :: "rng \<Rightarrow> val \<times> rng" where
  "gen_amount r = (let (n, r1) = randint 1 100 r in (IntV (n * 10), r1))"

definition gen_salary :: "rng \<Rightarrow> val \<times> rng" where
  "gen_salary r = (let (n, r1) = randint 30000 120000 r in (IntV n, r1))"

definition gen_category :: "rng \<Rightarrow> val \<times> rng" where
  "gen_category r = (let (s, r1) = choice [''Electronics'', ''Clothing'', ''Food'', ''Furniture''] r
                     in (StrV s, r1))"

text \<open>\<^verbatim>\<open>self.data_generators\<close>\<close>

definition data_generators :: "(string \<times> (rng \<Rightarrow> val \<times> rng)) list" where
  "data_generators =
    [(''name'', gen_name),
     (''email'', gen_email),
     (''revenue'', gen_revenue),
     (''region'', gen_region),
     (''date'', gen_date),
     (''price'', gen_price),
     (''inventory'', gen_inventory),
     (''amount'', gen_amount),
     (''salary'', gen_salary),
     (''category'', gen_category)]"

section \<open>Mappers\<close>

definition map_entity_to_table :: "string \<Rightarrow> string" where
  "map_entity_to_table entity0 =
     (let entity = rstrip CHR ''s'' (lower entity0) in
      if contains ''customer'' entity then ''customers''
      else if contains ''product'' entity then ''products''
      else if contains ''sale'' entity then ''sales''
      else if contains ''employee'' entity then ''employees''
      else ''customers'')"

definition map_attribute :: "string \<Rightarrow> string" where
  "map_attribute attribute0 =
     (let attribute = lower attribute0 in
      if contains ''reven'' attribute then ''revenue''
      else if contains ''price'' attribute then ''price''
      else if contains ''invent'' attribute then ''inventory''
      else if contains ''amount'' attribute \<or> contains ''sale'' attribute then ''amount''
      else if contains ''salar'' attribute then ''salary''
      else ''*'')"

definition map_timeframe :: "string \<Rightarrow> string" where
  "map_timeframe timeframe0 =
     (let timeframe = lower timeframe0 in
      if contains ''day'' timeframe then ''date = date('now', '-1 day')''
      else if contains ''week'' timeframe then ''date >= date('now', '-7 day')''
      else if contains ''month'' timeframe then ''date >= date('now', '-1 month')''
      else if contains ''quarter'' timeframe then ''date >= date('now', '-3 month')''
      else if contains ''year'' timeframe then ''date >= date('now', '-1 year')''
      else ''1=1'')"

definition map_comparison :: "string \<Rightarrow> string" where
  "map_comparison comparison0 =
     (let comparison = lower comparison0 in
      if contains ''below'' comparison \<or> contains ''under'' comparison then ''<''
      else if contains ''above'' comparison \<or> contains ''over'' comparison then ''>''
      else if contains ''equal'' comparison then ''=''
      else ''='')"

text \<open>
  \<^verbatim>\<open>re.findall(r'\d+', value_str)\<close> and then the first element: the leftmost run of
  digits, which is what a search for the grouped pattern captures.
\<close>

definition parse_value :: "string \<Rightarrow> string" where
  "parse_value value_str =
     (case rx_search False (Group (Plus Digit)) value_str of
        Some (n # _) \<Rightarrow> n
      | _ \<Rightarrow> ''0'')"

text \<open>
  The class has no method \<^verbatim>\<open>_map_metric_to_table\<close>: the reference
  \<^verbatim>\<open>self._map_metric_to_table\<close> raises before anything is called.
\<close>

definition map_metric_to_table :: "string \<Rightarrow> error + string" where
  "map_metric_to_table metric = Inl (AttributeError ''_map_metric_to_table'')"

section \<open>Translators\<close>

text \<open>
  A match object is the list of its captured groups.  A translator reads the groups of its
  own pattern; asking for a group the match does not have is Python's \<open>IndexError\<close>.
\<close>

fun translate_ranking_query :: "string list \<Rightarrow> error + string" where
  "translate_ranking_query (direction # limit # entity # metric0 # _) =
     (let order = (if direction = ''top'' then ''DESC'' else ''ASC'');
          table = map_entity_to_table entity;
          metric = map_attribute metric0
      in Inr (''SELECT * FROM '' @ table @ '' ORDER BY '' @ metric @ '' '' @ order
                @ '' LIMIT '' @ limit))"
| "translate_ranking_query _ = Inl IndexError"

fun translate_temporal_query :: "string list \<Rightarrow> error + string" where
  "translate_temporal_query (metric0 # timeframe # _) =
     (let time_condition = map_timeframe timeframe in
      case map_metric_to_table metric0 of
        Inl e \<Rightarrow> Inl e
      | Inr table \<Rightarrow>
          (let metric = map_attribute metric0 in
           if metric = ''*''
           then Inr (''SELECT SUM(amount) FROM '' @ table @ '' WHERE '' @ time_condition)
           else Inr (''SELECT '' @ metric @ '' FROM '' @ table @ '' WHERE '' @ time_condition)))"
| "translate_temporal_query _ = Inl IndexError"

fun translate_filter_query :: "string list \<Rightarrow> error + string" where
  "translate_filter_query (entity # attribute0 # comparison # _) =
     (let table = map_entity_to_table entity;
          attribute = map_attribute attribute0;
          operator = map_comparison comparison
      in Inr (''SELECT * FROM '' @ table @ '' WHERE '' @ attribute @ '' '' @ operator @ '' ''
                @ parse_value comparison))"
| "translate_filter_query _ = Inl IndexError"

text \<open>
  The attribute reference \<^verbatim>\<open>self._translate_..._query\<close>.  The class defines the ranking,
  temporal and filter translators; it defines no \<^verbatim>\<open>_translate_count_query\<close>,
  \<^verbatim>\<open>_translate_comparison_query\<close> or \<^verbatim>\<open>_translate_aggregation_query\<close>, and a
  reference to one of those raises.
\<close>

fun bound_method :: "translator \<Rightarrow> error + (string list \<Rightarrow> error + string)" where
  "bound_method TranslateRanking = Inr translate_ranking_query"
| "bound_method TranslateTemporal = Inr translate_temporal_query"
| "bound_method TranslateFilter = Inr translate_filter_query"
| "bound_method TranslateCount = Inl (AttributeError ''_translate_count_query'')"
| "bound_method TranslateComparison = Inl (AttributeError ''_translate_comparison_query'')"
| "bound_method TranslateAggregation = Inl (AttributeError ''_translate_aggregation_query'')"

text \<open>
  The list display of the constructor evaluates its six attribute references in order,
  and stops at the first that raises.
\<close>

fun build_patterns ::
  "(rx \<times> translator) list \<Rightarrow> error + (rx \<times> (string list \<Rightarrow> error + string)) list" where
  "build_patterns [] = Inr []"
| "build_patterns ((p, t) # rest) =
     (case bound_method t of
        Inl e \<Rightarrow> Inl e
      | Inr f \<Rightarrow> (case build_patterns rest of Inl e \<Rightarrow> Inl e | Inr fs \<Rightarrow> Inr ((p, f) # fs)))"

definition init_patterns :: "error + (rx \<times> (string list \<Rightarrow> error + string)) list" where
  "init_patterns = build_patterns patterns"

section \<open>The dispatcher\<close>

text \<open>
  The loop over \<^verbatim>\<open>self.patterns\<close>: the first pattern that \<^verbatim>\<open>re.search\<close> finds in the
  text (with \<^verbatim>\<open>re.IGNORECASE\<close>) decides, and the later ones are not tried.
\<close>

fun dispatch :: "(rx \<times> translator) list \<Rightarrow> string \<Rightarrow> (translator \<times> string list) option" where
  "dispatch [] q = None"
| "dispatch ((p, t) # rest) q =
     (case rx_search True p q of Some m \<Rightarrow> Some (t, m) | None \<Rightarrow> dispatch rest q)"

definition fallback_query :: "string \<Rightarrow> string" where
  "fallback_query natural_query =
     ''SELECT * FROM data WHERE query='' @ [CHR 0x27] @ natural_query @ [CHR 0x27] @ '' LIMIT 10''"

text \<open>
  The methods below are read against the attribute values the constructor is written to
  set; the translator a pattern names is looked up when the pattern has matched.
\<close>

definition translate_query :: "string \<Rightarrow> error + string" where
  "translate_query natural_query0 =
     (let natural_query = lower natural_query0 in
      case dispatch patterns natural_query of
        Some (t, m) \<Rightarrow> (case bound_method t of Inl e \<Rightarrow> Inl e | Inr translator \<Rightarrow> translator m)
      | None \<Rightarrow> Inr (fallback_query natural_query))"

section \<open>The validator\<close>

record validation =
  v_original_query :: string
  is_valid :: bool
  reasons :: "string list"
  suggestions :: "string list option"

definition reason_pattern :: string where
  "reason_pattern = ''Query doesn't match any known patterns''"

definition reason_entity :: string where
  "reason_entity = ''No known data entities (customers, products, sales, etc.) detected in query''"

definition reason_attr :: string where
  "reason_attr = ''No measurable attributes detected in query''"

definition suggestion_pattern :: string where
  "suggestion_pattern =
     ''Try using more structured queries like 'Show top X by Y' or 'List A with B under C''
       @ [CHR 0x27]"

definition suggestion_entity :: string where
  "suggestion_entity =
     ''Try mentioning specific data entities like 'customers', 'products', or 'sales''
       @ [CHR 0x27]"

definition suggestion_attr :: string where
  "suggestion_attr =
     ''Try including measurable attributes like 'revenue', 'price', or 'inventory''
       @ [CHR 0x27]"

definition measurable_attrs :: "string list" where
  "measurable_attrs = [''revenue'', ''price'', ''inventory'', ''amount'', ''salary'']"

text \<open>The three checks, each a loop that stops at its first hit.\<close>

definition pattern_matched :: "string \<Rightarrow> bool" where
  "pattern_matched natural_query =
     list_ex (\<lambda>(pattern, _). rx_search True pattern natural_query \<noteq> None) patterns"

definition entities_found :: "string \<Rightarrow> bool" where
  "entities_found natural_query =
     list_ex (\<lambda>entity. contains entity (lower natural_query)) (map fst schemas)"

definition attr_found :: "string \<Rightarrow> bool" where
  "attr_found natural_query =
     list_ex (\<lambda>attr. contains attr (lower natural_query)) measurable_attrs"

text \<open>One check's effect on \<^verbatim>\<open>(is_valid, reasons, suggestions)\<close>.\<close>

definition check_step ::
  "bool \<Rightarrow> string \<Rightarrow> string \<Rightarrow> bool \<times> string list \<times> string list
     \<Rightarrow> bool \<times> string list \<times> string list" where
  "check_step passed reason suggestion st =
     (case st of (valid, rs, ss) \<Rightarrow>
        if \<not> passed then (False, rs @ [reason], ss @ [suggestion]) else (valid, rs, ss))"

definition validate_query :: "string \<Rightarrow> validation" where
  "validate_query natural_query =
     (let st0 = (True, [], []);
          st1 = check_step (pattern_matched natural_query) reason_pattern suggestion_pattern st0;
          st2 = check_step (entities_found natural_query) reason_entity suggestion_entity st1;
          st3 = check_step (attr_found natural_query) reason_attr suggestion_attr st2
      in case st3 of (valid, rs, ss) \<Rightarrow>
           \<lparr> v_original_query = natural_query,
             is_valid = valid,
             reasons = rs,
             suggestions = (if \<not> valid then Some ss else None) \<rparr>)"

section \<open>The record synthesizer\<close>

text \<open>The value one column receives, in the order of the source's tests.\<close>

definition gen_value :: "string \<Rightarrow> rng \<Rightarrow> val \<times> rng" where
  "gen_value col r =
     (if ends_with col ''_id'' then (let (n, r1) = randint 1 50 r in (IntV n, r1))
      else case map_of data_generators col of
             Some g \<Rightarrow> g r
           | None \<Rightarrow>
               if col = ''id'' then (let (n, r1) = randint 1 1000 r in (IntV n, r1))
               else (StrV [], r))"

text \<open>
  The inner loop: \<^verbatim>\<open>record[col] = ...\<close> for each column in turn.  Assigning to a key
  the dictionary already has replaces its value in place; a new key goes to the end.
\<close>

fun fill_record :: "string list \<Rightarrow> row \<Rightarrow> rng \<Rightarrow> row \<times> rng" where
  "fill_record [] rec r = (rec, r)"
| "fill_record (col # cols) rec r =
     (let (v, r1) = gen_value col r in fill_record cols (AList.update col v rec) r1)"

text \<open>The outer loop, \<^verbatim>\<open>for _ in range(count)\<close>.\<close>

fun gen_records :: "string list \<Rightarrow> nat \<Rightarrow> rng \<Rightarrow> row list \<times> rng" where
  "gen_records columns 0 r = ([], r)"
| "gen_records columns (Suc n) r =
     (let (rec, r1) = fill_record columns [] r;
          (rest, r2) = gen_records columns n r1
      in (rec # rest, r2))"

text \<open>\<^verbatim>\<open>range(count)\<close> is empty for a count below one.\<close>

definition generate_mock_records :: "string \<Rightarrow> int \<Rightarrow> rng \<Rightarrow> error + (row list \<times> rng)" where
  "generate_mock_records table count r =
     (case map_of schemas table of
        None \<Rightarrow> Inl (KeyError table)
      | Some columns \<Rightarrow> Inr (gen_records columns (nat count) r))"

section \<open>The mock executor\<close>

definition rx_aggregate :: rx where
  "rx_aggregate =
     seqs [Group (alts [''SUM'', ''AVG'', ''COUNT'']), Lit ''('', Group (Plus Word), Lit '')'']"

definition rx_limit :: rx where
  "rx_limit = seqs [Lit ''LIMIT '', Group (Plus Digit)]"

definition rx_from :: rx where
  "rx_from = seqs [Lit ''FROM '', Group (Plus Word)]"

text \<open>\<^verbatim>\<open>re.search(r'FROM (\w+)', pseudo_sql).group(1)\<close>\<close>

definition from_table :: "string \<Rightarrow> error + string" where
  "from_table pseudo_sql =
     (case rx_search False rx_from pseudo_sql of
        None \<Rightarrow> Inl (AttributeError ''group'')
      | Some [] \<Rightarrow> Inl IndexError
      | Some (table # _) \<Rightarrow> Inr table)"

text \<open>The limit of the ranking branch: 10 unless the text has \<^verbatim>\<open>LIMIT\<close> and digits.\<close>

definition limit_of :: "string \<Rightarrow> error + int" where
  "limit_of pseudo_sql =
     (case rx_search False rx_limit pseudo_sql of
        None \<Rightarrow> Inr 10
      | Some [] \<Rightarrow> Inl IndexError
      | Some (d # _) \<Rightarrow> Inr (int_of_digits d))"

text \<open>The statements after the chain of tests, reached when no branch has returned.\<close>

definition default_select :: "string \<Rightarrow> rng \<Rightarrow> error + (row list \<times> rng)" where
  "default_select pseudo_sql r =
     (case from_table pseudo_sql of
        Inl e \<Rightarrow> Inl e
      | Inr table \<Rightarrow> generate_mock_records table 5 r)"

definition execute_mock_query :: "string \<Rightarrow> rng \<Rightarrow> error + (row list \<times> rng)" where
  "execute_mock_query pseudo_sql r =
     (if contains ''SELECT'' pseudo_sql then
        if contains ''SUM'' pseudo_sql \<or> contains ''AVG'' pseudo_sql
             \<or> contains ''COUNT'' pseudo_sql then
          (case rx_search False rx_aggregate pseudo_sql of
             None \<Rightarrow> default_select pseudo_sql r
           | Some (fn # metric_name # _) \<Rightarrow>
               (let (n, r1) = randint 1000 100000 r
                in Inr ([[(lower fn @ ''('' @ metric_name @ '')'', IntV n)]], r1))
           | Some _ \<Rightarrow> Inl IndexError)
        else if contains ''ORDER BY'' pseudo_sql then
          (case limit_of pseudo_sql of
             Inl e \<Rightarrow> Inl e
           | Inr limit \<Rightarrow>
               (case from_table pseudo_sql of
                  Inl e \<Rightarrow> Inl e
                | Inr table \<Rightarrow> generate_mock_records table limit r))
        else if contains ''WHERE'' pseudo_sql then
          (case from_table pseudo_sql of
             Inl e \<Rightarrow> Inl e
           | Inr table \<Rightarrow> (let (n, r1) = randint 1 10 r in generate_mock_records table n r1))
        else default_select pseudo_sql r
      else Inr ([[(''result'', StrV ''Mock data for query''), (''query'', StrV pseudo_sql)]], r))"

section \<open>The public operation\<close>

text \<open>
  The response of \<^verbatim>\<open>process_query\<close> without its wall-clock field: the text as given,
  the translation and the rows, together with the generator state left behind.
\<close>

record response =
  original_query :: string
  translated_query :: string
  result :: "row list"

definition process_query :: "string \<Rightarrow> rng \<Rightarrow> error + (response \<times> rng)" where
  "process_query natural_query r =
     (case translate_query natural_query of
        Inl e \<Rightarrow> Inl e
      | Inr translated \<Rightarrow>
          (case execute_mock_query translated r of
             Inl e \<Rightarrow> Inl e
           | Inr (rows, r1) \<Rightarrow>
               Inr (\<lparr> original_query = natural_query,
                      translated_query = translated,
                      result = rows \<rparr>, r1)))"

section \<open>Notions used in the statements\<close>

text \<open>A generator state whose every raw draw is \<open>n\<close>.\<close>

definition constant_draws :: "nat \<Rightarrow> rng" where
  "constant_draws n = (\<lambda>i. n)"

text \<open>
  The tests under which \<open>execute_mock_query\<close> reaches its filter branch, the one that draws
  the number of rows.
\<close>

definition takes_filter_branch :: "string \<Rightarrow> bool" where
  "takes_filter_branch pseudo_sql =
     (contains ''SELECT'' pseudo_sql
      \<and> \<not> (contains ''SUM'' pseudo_sql \<or> contains ''AVG'' pseudo_sql \<or> contains ''COUNT'' pseudo_sql)
      \<and> \<not> contains ''ORDER BY'' pseudo_sql
      \<and> contains ''WHERE'' pseudo_sql)"

section \<open>Random draws and synthesized records\<close>

lemma randint_bounds:
  assumes "a \<le> b"
  shows "a \<le> fst (randint a b r)" and "fst (randint a b r) \<le> b"
proof -
  have pos: "0 < nat (b - a + 1)" using assms by simp
  show "a \<le> fst (randint a b r)" by (simp add: randint_def)
  have "r 0 mod nat (b - a + 1) < nat (b - a + 1)" using pos by (rule mod_less_divisor)
  then have "int (r 0 mod nat (b - a + 1)) < b - a + 1" using assms by linarith
  then show "fst (randint a b r) \<le> b" by (simp add: randint_def)
qed

lemma randint_constant:
  "randint a b (constant_draws n) = (a + int (n mod nat (b - a + 1)), constant_draws n)"
  by (simp add: randint_def constant_draws_def)

lemma update_set_subset: "set (AList.update k v al) \<subseteq> insert (k, v) (set al)"
  by (induction al) auto

lemma fill_record_keys:
  "distinct (map fst rec @ cols) \<Longrightarrow> map fst (fst (fill_record cols rec r)) = map fst rec @ cols"
proof (induction cols arbitrary: rec r)
  case Nil
  then show ?case by simp
next
  case (Cons col cols)
  obtain v r1 where gv: "gen_value col r = (v, r1)" by (cases "gen_value col r")
  from Cons.prems have notin: "col \<notin> set (map fst rec)" by auto
  then have keys: "map fst (AList.update col v rec) = map fst rec @ [col]"
    by (simp add: update_keys)
  from Cons.prems have "distinct (map fst (AList.update col v rec) @ cols)"
    by (simp add: keys)
  then have "map fst (fst (fill_record cols (AList.update col v rec) r1)) =
      map fst (AList.update col v rec) @ cols"
    by (rule Cons.IH)
  then show ?case by (simp add: gv keys)
qed

lemma fill_record_values:
  assumes "\<And>c v. (c, v) \<in> set rec \<Longrightarrow> P c v"
    and "\<And>c r0. P c (fst (gen_value c r0))"
  shows "(c, v) \<in> set (fst (fill_record cols rec r)) \<Longrightarrow> P c v"
  using assms(1)
proof (induction cols arbitrary: rec r)
  case Nil
  then show ?case by simp
next
  case (Cons col cols)
  obtain w r1 where gv: "gen_value col r = (w, r1)" by (cases "gen_value col r")
  have pw: "P col w" using assms(2)[of col r] by (simp add: gv)
  have inv: "\<And>c v. (c, v) \<in> set (AList.update col w rec) \<Longrightarrow> P c v"
    using update_set_subset[of col w rec] Cons.prems(2) pw by auto
  from Cons.prems(1) have "(c, v) \<in> set (fst (fill_record cols (AList.update col w rec) r1))"
    by (simp add: gv)
  then show ?case using inv by (rule Cons.IH)
qed

lemma gen_records_length: "length (fst (gen_records cols n r)) = n"
proof (induction n arbitrary: r)
  case 0
  then show ?case by simp
next
  case (Suc n)
  obtain rec r1 where fr: "fill_record cols [] r = (rec, r1)" by (cases "fill_record cols [] r")
  obtain rest r2 where gr: "gen_records cols n r1 = (rest, r2)" by (cases "gen_records cols n r1")
  have "length rest = n" using Suc.IH[of r1] by (simp add: gr)
  then show ?case by (simp add: fr gr)
qed

lemma gen_records_rows:
  "row \<in> set (fst (gen_records cols n r)) \<Longrightarrow> \<exists>r0. row = fst (fill_record cols [] r0)"
proof (induction n arbitrary: r)
  case 0
  then show ?case by simp
next
  case (Suc n)
  obtain rec r1 where fr: "fill_record cols [] r = (rec, r1)" by (cases "fill_record cols [] r")
  obtain rest r2 where gr: "gen_records cols n r1 = (rest, r2)" by (cases "gen_records cols n r1")
  from Suc.prems have "row = rec \<or> row \<in> set rest" by (simp add: fr gr)
  then show ?case
  proof
    assume "row = rec"
    then have "row = fst (fill_record cols [] r)" by (simp add: fr)
    then show ?thesis by blast
  next
    assume "row \<in> set rest"
    then have "row \<in> set (fst (gen_records cols n r1))" by (simp add: gr)
    then show ?thesis by (rule Suc.IH)
  qed
qed

lemma generator_names: "map_of data_generators c = Some g \<Longrightarrow> \<not> ends_with c ''_id''"
  by (auto simp: data_generators_def ends_with_def split: if_splits)

lemma gen_value_id:
  "ends_with c ''_id'' \<Longrightarrow> \<exists>k. fst (gen_value c r) = IntV k \<and> 1 \<le> k \<and> k \<le> 50"
  using randint_bounds[of 1 50 r]
  by (auto simp: gen_value_def split: prod.splits)

lemma gen_value_generator:
  "map_of data_generators c = Some g \<Longrightarrow> gen_value c r = g r"
  using generator_names[of c g] by (simp add: gen_value_def)

lemma gen_value_placeholder:
  "\<not> ends_with c ''_id'' \<Longrightarrow> map_of data_generators c = None \<Longrightarrow> c \<noteq> ''id'' \<Longrightarrow>
     gen_value c r = (StrV [], r)"
  by (simp add: gen_value_def)

lemma schemas_distinct: "map_of schemas table = Some columns \<Longrightarrow> distinct columns"
  by (auto simp: schemas_def split: if_splits)

text \<open>
  Claim C9.  For a table of the schema registry and a requested count \<open>n\<close> (not negative),
  \<open>generate_mock_records\<close> returns exactly \<open>n\<close> records; the keys of every record
  are the columns of the table's schema in their declared order, so no column other than
  the identifier is left out or moved; a column whose name ends in \<open>_id\<close> holds an
  integer from 1 to 50, a column with a registered generator holds a value that generator
  produces, and every other column except \<open>id\<close> holds the empty string.
\<close>

theorem generate_mock_records_complete:
  assumes "map_of schemas table = Some columns" and "0 \<le> n"
  shows "\<exists>rows r'. generate_mock_records table n r = Inr (rows, r')
           \<and> int (length rows) = n
           \<and> (\<forall>row \<in> set rows.
                 map fst row = columns
               \<and> filter (\<lambda>c. c \<noteq> ''id'') (map fst row) = filter (\<lambda>c. c \<noteq> ''id'') columns
               \<and> (\<forall>(c, v) \<in> set row.
                     (ends_with c ''_id'' \<longrightarrow> (\<exists>k. v = IntV k \<and> 1 \<le> k \<and> k \<le> 50))
                   \<and> (\<forall>g. map_of data_generators c = Some g \<longrightarrow> (\<exists>r0. v = fst (g r0)))
                   \<and> (\<not> ends_with c ''_id'' \<and> map_of data_generators c = None \<and> c \<noteq> ''id''
                        \<longrightarrow> v = StrV [])))"
proof -
  let ?P = "\<lambda>c v. (ends_with c ''_id'' \<longrightarrow> (\<exists>k. v = IntV k \<and> 1 \<le> k \<and> k \<le> 50))
                   \<and> (\<forall>g. map_of data_generators c = Some g \<longrightarrow> (\<exists>r0. v = fst (g r0)))
                   \<and> (\<not> ends_with c ''_id'' \<and> map_of data_generators c = None \<and> c \<noteq> ''id''
                        \<longrightarrow> v = StrV [])"
  obtain rows r' where gr: "gen_records columns (nat n) r = (rows, r')"
    by (cases "gen_records columns (nat n) r")
  have res: "generate_mock_records table n r = Inr (rows, r')"
    by (simp add: generate_mock_records_def assms(1) gr)
  have len: "int (length rows) = n"
    using gen_records_length[of columns "nat n" r] assms(2) by (simp add: gr)
  have dist: "distinct columns" using assms(1) by (rule schemas_distinct)
  have gen_ok: "?P c (fst (gen_value c r0))" for c r0
  proof (intro conjI impI allI)
    assume "ends_with c ''_id''"
    then show "\<exists>k. fst (gen_value c r0) = IntV k \<and> 1 \<le> k \<and> k \<le> 50"
      by (rule gen_value_id)
  next
    fix g assume "map_of data_generators c = Some g"
    then have "fst (gen_value c r0) = fst (g r0)" by (simp add: gen_value_generator)
    then show "\<exists>r1. fst (gen_value c r0) = fst (g r1)" by blast
  next
    assume "\<not> ends_with c ''_id'' \<and> map_of data_generators c = None \<and> c \<noteq> ''id''"
    then show "fst (gen_value c r0) = StrV []" by (simp add: gen_value_placeholder)
  qed
  have rows_ok: "map fst row = columns \<and>
      filter (\<lambda>c. c \<noteq> ''id'') (map fst row) = filter (\<lambda>c. c \<noteq> ''id'') columns \<and>
      (\<forall>(c, v) \<in> set row. ?P c v)" if "row \<in> set rows" for row
  proof -
    from that have "row \<in> set (fst (gen_records columns (nat n) r))" by (simp add: gr)
    then obtain r0 where row: "row = fst (fill_record columns [] r0)"
      using gen_records_rows by blast
    have keys: "map fst row = columns"
      using fill_record_keys[of "[]" columns r0] dist by (simp add: row)
    have vals: "?P c v" if "(c, v) \<in> set row" for c v
    proof (rule fill_record_values[where P = ?P and rec = "[]" and cols = columns and r = r0])
      show "(c, v) \<in> set (fst (fill_record columns [] r0))" using that by (simp add: row)
    next
      fix c' v' assume "(c', v') \<in> set ([] :: row)"
      then show "?P c' v'" by simp
    next
      fix c' r1 show "?P c' (fst (gen_value c' r1))" by (rule gen_ok)
    qed
    from keys vals show ?thesis by auto
  qed
  from res len rows_ok show ?thesis by blast
qed

theorem generate_mock_records_complete_witness:
  "map_of schemas ''sales'' = Some [''id'', ''product_id'', ''customer_id'', ''amount'', ''date'', ''region'']
   \<and> (0::int) \<le> 2
   \<and> (\<exists>rows r'. generate_mock_records ''sales'' 2 (constant_draws 7) = Inr (rows, r')
         \<and> length rows = 2
         \<and> (\<forall>row \<in> set rows. map fst row =
               [''id'', ''product_id'', ''customer_id'', ''amount'', ''date'', ''region'']))"
proof -
  have s: "map_of schemas ''sales'' =
      Some [''id'', ''product_id'', ''customer_id'', ''amount'', ''date'', ''region'']"
    by (simp add: schemas_def)
  have n: "(0::int) \<le> 2" by simp
  from generate_mock_records_complete[OF s n, of "constant_draws 7"] s n
  show ?thesis by fastforce
qed

lemma generate_mock_records_rows:
  assumes "map_of schemas table = Some columns"
  shows "\<exists>rows r'. generate_mock_records table n r = Inr (rows, r')
           \<and> length rows = nat n \<and> (\<forall>row \<in> set rows. map fst row = columns)"
proof -
  obtain rows r' where gr: "gen_records columns (nat n) r = (rows, r')"
    by (cases "gen_records columns (nat n) r")
  have res: "generate_mock_records table n r = Inr (rows, r')"
    by (simp add: generate_mock_records_def assms gr)
  have len: "length rows = nat n"
    using gen_records_length[of columns "nat n" r] by (simp add: gr)
  have dist: "distinct columns" using assms by (rule schemas_distinct)
  have "map fst row = columns" if "row \<in> set rows" for row
  proof -
    from that have "row \<in> set (fst (gen_records columns (nat n) r))" by (simp add: gr)
    then obtain r0 where row: "row = fst (fill_record columns [] r0)"
      using gen_records_rows by blast
    show ?thesis using fill_record_keys[of "[]" columns r0] dist by (simp add: row)
  qed
  with res len show ?thesis by blast
qed

section \<open>The branches of the mock executor\<close>

lemma execute_aggregate_branch:
  assumes "contains ''SELECT'' sql"
    and "contains ''SUM'' sql \<or> contains ''AVG'' sql \<or> contains ''COUNT'' sql"
    and "rx_search False rx_aggregate sql = Some [fn, col]"
  shows "execute_mock_query sql r =
     Inr ([[(lower fn @ ''('' @ col @ '')'', IntV (fst (randint 1000 100000 r)))]],
          snd (randint 1000 100000 r))"
  using assms by (simp add: execute_mock_query_def split: prod.splits)

lemma execute_ranking_branch:
  assumes "contains ''SELECT'' sql"
    and "\<not> (contains ''SUM'' sql \<or> contains ''AVG'' sql \<or> contains ''COUNT'' sql)"
    and "contains ''ORDER BY'' sql"
    and "limit_of sql = Inr n" and "from_table sql = Inr t"
  shows "execute_mock_query sql r = generate_mock_records t n r"
  using assms by (simp add: execute_mock_query_def)

lemma execute_filter_branch:
  assumes "takes_filter_branch sql" and "from_table sql = Inr t"
  shows "execute_mock_query sql r =
     generate_mock_records t (fst (randint 1 10 r)) (snd (randint 1 10 r))"
  using assms by (simp add: execute_mock_query_def takes_filter_branch_def split: prod.splits)

section \<open>The dispatcher's order\<close>

lemma dispatch_earliest_wins:
  assumes "\<forall>(p', t') \<in> set earlier. rx_search True p' q = None"
    and "rx_search True p q = Some m"
  shows "dispatch (earlier @ (p, t) # later) q = Some (t, m)"
  using assms by (induction earlier) auto

lemma dispatch_none:
  "dispatch ps q = None \<longleftrightarrow> (\<forall>(p, t) \<in> set ps. rx_search True p q = None)"
  by (induction ps) (auto split: option.splits)

section \<open>The worked examples\<close>

lemma ranking_translation:
  "translate_query ''show me the top 5 customers by revenue'' =
     Inr ''SELECT * FROM customers ORDER BY revenue DESC LIMIT 5''"
  by code_simp

lemma ranking_sql_tests:
  "contains ''SELECT'' ''SELECT * FROM customers ORDER BY revenue DESC LIMIT 5''"
  "\<not> (contains ''SUM'' ''SELECT * FROM customers ORDER BY revenue DESC LIMIT 5''
      \<or> contains ''AVG'' ''SELECT * FROM customers ORDER BY revenue DESC LIMIT 5''
      \<or> contains ''COUNT'' ''SELECT * FROM customers ORDER BY revenue DESC LIMIT 5'')"
  "contains ''ORDER BY'' ''SELECT * FROM customers ORDER BY revenue DESC LIMIT 5''"
  "limit_of ''SELECT * FROM customers ORDER BY revenue DESC LIMIT 5'' = Inr 5"
  "from_table ''SELECT * FROM customers ORDER BY revenue DESC LIMIT 5'' = Inr ''customers''"
  by code_simp+

lemma customers_schema:
  "map_of schemas ''customers'' =
     Some [''id'', ''name'', ''email'', ''revenue'', ''region'', ''join_date'']"
  by (simp add: schemas_def)

lemma products_schema:
  "map_of schemas ''products'' =
     Some [''id'', ''name'', ''category'', ''price'', ''inventory'', ''supplier'']"
  by (simp add: schemas_def)

lemma filter_translation:
  "translate_query ''list products with inventory below 100 units'' =
     Inr ''SELECT * FROM products WHERE inventory = 100''"
  by code_simp

lemma filter_sql_tests:
  "takes_filter_branch ''SELECT * FROM products WHERE inventory = 100''"
  "from_table ''SELECT * FROM products WHERE inventory = 100'' = Inr ''products''"
  by code_simp+

lemma process_ranking_example:
  "\<exists>resp r'. process_query ''show me the top 5 customers by revenue'' r = Inr (resp, r')
     \<and> translated_query resp = ''SELECT * FROM customers ORDER BY revenue DESC LIMIT 5''
     \<and> length (result resp) = 5
     \<and> (\<forall>row \<in> set (result resp).
           map fst row = [''id'', ''name'', ''email'', ''revenue'', ''region'', ''join_date''])"
proof -
  let ?sql = "''SELECT * FROM customers ORDER BY revenue DESC LIMIT 5''"
  have ex: "execute_mock_query ?sql r = generate_mock_records ''customers'' 5 r"
    by (rule execute_ranking_branch) (rule ranking_sql_tests)+
  obtain rows r' where rows: "generate_mock_records ''customers'' 5 r = Inr (rows, r')"
    "length rows = nat 5"
    "\<forall>row \<in> set rows. map fst row = [''id'', ''name'', ''email'', ''revenue'', ''region'', ''join_date'']"
    using generate_mock_records_rows[OF customers_schema, of 5 r] by blast
  have "process_query ''show me the top 5 customers by revenue'' r =
      Inr (\<lparr> original_query = ''show me the top 5 customers by revenue'',
              translated_query = ?sql, result = rows \<rparr>, r')"
    by (simp add: process_query_def ranking_translation ex rows(1))
  with rows(2,3) show ?thesis by simp
qed

lemma process_filter_example:
  "\<exists>resp r'. process_query ''list products with inventory below 100 units'' r = Inr (resp, r')
     \<and> translated_query resp = ''SELECT * FROM products WHERE inventory = 100''
     \<and> length (result resp) = nat (fst (randint 1 10 r))
     \<and> 1 \<le> length (result resp) \<and> length (result resp) \<le> 10
     \<and> (\<forall>row \<in> set (result resp).
           map fst row = [''id'', ''name'', ''category'', ''price'', ''inventory'', ''supplier''])"
proof -
  let ?sql = "''SELECT * FROM products WHERE inventory = 100''"
  let ?n = "fst (randint 1 10 r)"
  have ex: "execute_mock_query ?sql r = generate_mock_records ''products'' ?n (snd (randint 1 10 r))"
    by (rule execute_filter_branch) (rule filter_sql_tests)+
  obtain rows r' where rows:
    "generate_mock_records ''products'' ?n (snd (randint 1 10 r)) = Inr (rows, r')"
    "length rows = nat ?n"
    "\<forall>row \<in> set rows. map fst row = [''id'', ''name'', ''category'', ''price'', ''inventory'', ''supplier'']"
    using generate_mock_records_rows[OF products_schema, of ?n "snd (randint 1 10 r)"] by blast
  have "1 \<le> ?n" "?n \<le> 10" using randint_bounds[of 1 10 r] by simp_all
  then have bounds: "1 \<le> nat ?n" "nat ?n \<le> 10" by linarith+
  have "process_query ''list products with inventory below 100 units'' r =
      Inr (\<lparr> original_query = ''list products with inventory below 100 units'',
              translated_query = ?sql, result = rows \<rparr>, r')"
    by (simp add: process_query_def filter_translation ex rows(1))
  with rows(2,3) bounds show ?thesis by simp
qed

text \<open>
  Claim C7.  The text \<open>show me the top 5 customers by revenue\<close> matches the ranking
  pattern, the first of the list, and is translated to
  \<open>SELECT * FROM customers ORDER BY revenue DESC LIMIT 5\<close>; whatever the random draws,
  processing it returns exactly 5 rows, and the keys of each row are all the columns of
  the customers schema.
\<close>

theorem ranking_example:
  "dispatch patterns (lower ''show me the top 5 customers by revenue'') =
     Some (TranslateRanking, [''top'', ''5'', ''customers'', ''revenue''])
   \<and> translate_query ''show me the top 5 customers by revenue'' =
     Inr ''SELECT * FROM customers ORDER BY revenue DESC LIMIT 5''
   \<and> (\<exists>resp r'. process_query ''show me the top 5 customers by revenue'' r = Inr (resp, r')
         \<and> translated_query resp = ''SELECT * FROM customers ORDER BY revenue DESC LIMIT 5''
         \<and> length (result resp) = 5
         \<and> (\<forall>row \<in> set (result resp).
               map fst row = [''id'', ''name'', ''email'', ''revenue'', ''region'', ''join_date'']))"
proof (intro conjI)
  show "dispatch patterns (lower ''show me the top 5 customers by revenue'') =
     Some (TranslateRanking, [''top'', ''5'', ''customers'', ''revenue''])"
    by code_simp
  show "translate_query ''show me the top 5 customers by revenue'' =
     Inr ''SELECT * FROM customers ORDER BY revenue DESC LIMIT 5''"
    by (rule ranking_translation)
  show "\<exists>resp r'. process_query ''show me the top 5 customers by revenue'' r = Inr (resp, r')
         \<and> translated_query resp = ''SELECT * FROM customers ORDER BY revenue DESC LIMIT 5''
         \<and> length (result resp) = 5
         \<and> (\<forall>row \<in> set (result resp).
               map fst row = [''id'', ''name'', ''email'', ''revenue'', ''region'', ''join_date''])"
    by (rule process_ranking_example)
qed

theorem ranking_example_witness:
  "\<exists>resp r'. process_query ''show me the top 5 customers by revenue'' (constant_draws 0) = Inr (resp, r')
     \<and> result resp \<noteq> []
     \<and> map fst (hd (result resp)) = [''id'', ''name'', ''email'', ''revenue'', ''region'', ''join_date'']"
proof -
  from ranking_example[of "constant_draws 0"]
  obtain resp r' where p: "process_query ''show me the top 5 customers by revenue'' (constant_draws 0) = Inr (resp, r')"
    and len: "length (result resp) = 5"
    and keys: "\<forall>row \<in> set (result resp).
               map fst row = [''id'', ''name'', ''email'', ''revenue'', ''region'', ''join_date'']"
    by blast
  from len have ne: "result resp \<noteq> []" by auto
  then have "hd (result resp) \<in> set (result resp)" by simp
  with keys have k: "map fst (hd (result resp)) = [''id'', ''name'', ''email'', ''revenue'', ''region'', ''join_date'']"
    by blast
  show ?thesis using p ne k by (intro exI[of _ resp] exI[of _ "r'"]) simp
qed

text \<open>
  Claim C4, evaluated on the code.  The text \<open>list products with inventory below 100 units\<close>
  matches the filter pattern with the groups \<open>products\<close>, \<open>inventory\<close> and \<open>100 units\<close>:
  the word \<open>below\<close> is matched outside the groups, the comparison mapper sees only
  \<open>100 units\<close> and gives its default, and the translation is
  \<open>SELECT * FROM products WHERE inventory = 100\<close>.  Processing the text returns between
  1 and 10 rows of the products table.
\<close>

theorem filter_example_operator:
  "dispatch patterns (lower ''list products with inventory below 100 units'') =
     Some (TranslateFilter, [''products'', ''inventory'', ''100 units''])
   \<and> map_comparison ''100 units'' = ''=''
   \<and> map_comparison ''below 100 units'' = ''<''
   \<and> translate_query ''list products with inventory below 100 units'' =
     Inr ''SELECT * FROM products WHERE inventory = 100''
   \<and> (\<exists>resp r'. process_query ''list products with inventory below 100 units'' r = Inr (resp, r')
         \<and> translated_query resp = ''SELECT * FROM products WHERE inventory = 100''
         \<and> 1 \<le> length (result resp) \<and> length (result resp) \<le> 10)"
proof (intro conjI)
  show "dispatch patterns (lower ''list products with inventory below 100 units'') =
     Some (TranslateFilter, [''products'', ''inventory'', ''100 units''])"
    by code_simp
  show "map_comparison ''100 units'' = ''=''" by code_simp
  show "map_comparison ''below 100 units'' = ''<''" by code_simp
  show "translate_query ''list products with inventory below 100 units'' =
     Inr ''SELECT * FROM products WHERE inventory = 100''"
    by (rule filter_translation)
  show "\<exists>resp r'. process_query ''list products with inventory below 100 units'' r = Inr (resp, r')
         \<and> translated_query resp = ''SELECT * FROM products WHERE inventory = 100''
         \<and> 1 \<le> length (result resp) \<and> length (result resp) \<le> 10"
    using process_filter_example[of r] by blast
qed

text \<open>
  Claim C10.  The text \<open>show me the top 5 clients by revenue\<close> matches the ranking pattern
  and is translated by the ranking translator, the entity mapper falling back to the
  customers table, into a query that is not the fallback; yet the validator finds none of
  the table names in it and declares it invalid, for that reason alone.
\<close>

theorem validation_dispatch_disagree:
  "dispatch patterns (lower ''show me the top 5 clients by revenue'') =
     Some (TranslateRanking, [''top'', ''5'', ''clients'', ''revenue''])
   \<and> map_entity_to_table ''clients'' = ''customers''
   \<and> translate_query ''show me the top 5 clients by revenue'' =
     Inr ''SELECT * FROM customers ORDER BY revenue DESC LIMIT 5''
   \<and> translate_query ''show me the top 5 clients by revenue'' \<noteq>
     Inr (fallback_query (lower ''show me the top 5 clients by revenue''))
   \<and> pattern_matched ''show me the top 5 clients by revenue''
   \<and> \<not> entities_found ''show me the top 5 clients by revenue''
   \<and> is_valid (validate_query ''show me the top 5 clients by revenue'') = False
   \<and> reasons (validate_query ''show me the top 5 clients by revenue'') = [reason_entity]"
  by code_simp

section \<open>Validation\<close>

lemma validate_query_fields:
  "is_valid (validate_query q) = (pattern_matched q \<and> entities_found q \<and> attr_found q)"
  "reasons (validate_query q) =
     (if pattern_matched q then [] else [reason_pattern])
     @ (if entities_found q then [] else [reason_entity])
     @ (if attr_found q then [] else [reason_attr])"
  "suggestions (validate_query q) =
     (if pattern_matched q \<and> entities_found q \<and> attr_found q then None
      else Some ((if pattern_matched q then [] else [suggestion_pattern])
                 @ (if entities_found q then [] else [suggestion_entity])
                 @ (if attr_found q then [] else [suggestion_attr])))"
  by (simp_all add: validate_query_def check_step_def)

text \<open>
  Claim C6.  For every text, \<open>validate_query\<close> declares it valid exactly when the pattern
  check, the entity check and the attribute check all pass; the reasons are one per
  failing check, in the order of the checks, and so are the suggestions; the suggestions
  are absent exactly when the text is valid, and when present they are as many as the
  reasons and never an empty list.  The text \<open>foobar\<close> is invalid with three reasons and
  three suggestions; \<open>show me the top 5 customers by revenue\<close> is valid with no reason
  and no suggestions field.
\<close>

theorem validate_query_checks:
  "is_valid (validate_query q) = (pattern_matched q \<and> entities_found q \<and> attr_found q)
   \<and> reasons (validate_query q) =
       (if pattern_matched q then [] else [reason_pattern])
       @ (if entities_found q then [] else [reason_entity])
       @ (if attr_found q then [] else [reason_attr])
   \<and> (suggestions (validate_query q) = None) = is_valid (validate_query q)
   \<and> (is_valid (validate_query q) \<or>
        suggestions (validate_query q) =
          Some ((if pattern_matched q then [] else [suggestion_pattern])
                @ (if entities_found q then [] else [suggestion_entity])
                @ (if attr_found q then [] else [suggestion_attr])))
   \<and> (is_valid (validate_query q) \<or>
        (\<exists>ss. suggestions (validate_query q) = Some ss
              \<and> length ss = length (reasons (validate_query q))))
   \<and> suggestions (validate_query q) \<noteq> Some []
   \<and> validate_query ''foobar'' =
       \<lparr> v_original_query = ''foobar'', is_valid = False,
         reasons = [reason_pattern, reason_entity, reason_attr],
         suggestions = Some [suggestion_pattern, suggestion_entity, suggestion_attr] \<rparr>
   \<and> validate_query ''show me the top 5 customers by revenue'' =
       \<lparr> v_original_query = ''show me the top 5 customers by revenue'', is_valid = True,
         reasons = [], suggestions = None \<rparr>"
proof (intro conjI)
  show "validate_query ''foobar'' =
       \<lparr> v_original_query = ''foobar'', is_valid = False,
         reasons = [reason_pattern, reason_entity, reason_attr],
         suggestions = Some [suggestion_pattern, suggestion_entity, suggestion_attr] \<rparr>"
    by code_simp
  show "validate_query ''show me the top 5 customers by revenue'' =
       \<lparr> v_original_query = ''show me the top 5 customers by revenue'', is_valid = True,
         reasons = [], suggestions = None \<rparr>"
    by code_simp
qed (simp_all add: validate_query_fields)

theorem validate_query_checks_witness:
  "\<not> pattern_matched ''list products'' \<and> entities_found ''list products''
   \<and> \<not> attr_found ''list products''
   \<and> is_valid (validate_query ''list products'') = False
   \<and> reasons (validate_query ''list products'') = [reason_pattern, reason_attr]
   \<and> suggestions (validate_query ''list products'') = Some [suggestion_pattern, suggestion_attr]"
proof -
  have c: "\<not> pattern_matched ''list products''" "entities_found ''list products''"
    "\<not> attr_found ''list products''"
    by code_simp+
  from validate_query_checks[of "''list products''"] c show ?thesis by auto
qed

section \<open>The translators the patterns name\<close>

lemma init_patterns_raises: "init_patterns = Inl (AttributeError ''_translate_count_query'')"
  by (simp add: init_patterns_def patterns_def)

text \<open>
  Claim C1, evaluated on the code.  The constructor's list of patterns cannot be built:
  its fourth entry names a method the class does not have.  With the list as written, the
  canonical count, comparison and aggregation texts are each matched by their own pattern
  and then fail on the missing translator, and the temporal text reaches its translator,
  which fails on the missing table mapper.  A text that the ranking and the comparison
  pattern both match goes to the ranking translator, the earlier of the two.
\<close>

theorem missing_translators:
  "init_patterns = Inl (AttributeError ''_translate_count_query'')
   \<and> dispatch patterns (lower ''how many sales were there last month'') =
       Some (TranslateCount, [''sales'', ''month''])
   \<and> translate_query ''how many sales were there last month'' =
       Inl (AttributeError ''_translate_count_query'')
   \<and> dispatch patterns (lower ''compare customers and products by revenue'') =
       Some (TranslateComparison, [''customers'', ''products'', ''revenue''])
   \<and> translate_query ''compare customers and products by revenue'' =
       Inl (AttributeError ''_translate_comparison_query'')
   \<and> dispatch patterns (lower ''what is the average salary for employees'') =
       Some (TranslateAggregation, [''salary'', ''employees''])
   \<and> translate_query ''what is the average salary for employees'' =
       Inl (AttributeError ''_translate_aggregation_query'')
   \<and> dispatch patterns (lower ''what were the sales last quarter'') =
       Some (TranslateTemporal, [''sales'', ''quarter''])
   \<and> translate_query ''what were the sales last quarter'' =
       Inl (AttributeError ''_map_metric_to_table'')
   \<and> rx_search True pat_comparison ''show me the top 3 sales by amount compare a and b by c'' =
       Some [''a'', ''b'', ''c'']
   \<and> dispatch patterns ''show me the top 3 sales by amount compare a and b by c'' =
       Some (TranslateRanking, [''top'', ''3'', ''sales'', ''amount compare a and b by c''])"
proof (intro conjI)
  show "init_patterns = Inl (AttributeError ''_translate_count_query'')"
    by (rule init_patterns_raises)
qed code_simp+

section \<open>The temporal example\<close>

lemma temporal_translation:
  "translate_query ''what were the sales last quarter'' =
     Inl (AttributeError ''_map_metric_to_table'')"
  by code_simp

text \<open>
  Claim C3, evaluated on the code.  The text \<open>what were the sales last quarter\<close> is not
  matched by the ranking pattern and is matched by the temporal pattern, with the groups
  \<open>sales\<close> and \<open>quarter\<close>, and the timeframe is mapped to the relative 3-month window.
  The temporal translator then asks for the table of the metric through a method the class
  does not have: the translation raises, no query text is built, and processing the text
  returns no row, whatever the random draws.
\<close>

theorem temporal_example_raises:
  "rx_search True pat_ranking (lower ''what were the sales last quarter'') = None
   \<and> dispatch patterns (lower ''what were the sales last quarter'') =
       Some (TranslateTemporal, [''sales'', ''quarter''])
   \<and> map_timeframe ''quarter'' = ''date >= date('now', '-3 month')''
   \<and> translate_temporal_query [''sales'', ''quarter''] =
       Inl (AttributeError ''_map_metric_to_table'')
   \<and> translate_query ''what were the sales last quarter'' =
       Inl (AttributeError ''_map_metric_to_table'')
   \<and> process_query ''what were the sales last quarter'' r =
       Inl (AttributeError ''_map_metric_to_table'')"
proof (intro conjI)
  show "translate_query ''what were the sales last quarter'' =
       Inl (AttributeError ''_map_metric_to_table'')"
    by (rule temporal_translation)
  show "process_query ''what were the sales last quarter'' r =
       Inl (AttributeError ''_map_metric_to_table'')"
    by (simp add: process_query_def temporal_translation)
qed code_simp+

section \<open>Facts about searching\<close>

lemma starts_with_append: "starts_with (p @ t) p"
  by (induction p) simp_all

lemma starts_with_iff: "starts_with s p \<longleftrightarrow> (\<exists>t. s = p @ t)"
  by (induction s p rule: starts_with.induct) auto

lemma contains_iff: "contains sub s \<longleftrightarrow> (\<exists>pre post. s = pre @ sub @ post)"
proof (induction s)
  case Nil
  then show ?case by auto
next
  case (Cons c cs)
  show ?case
  proof
    assume "contains sub (c # cs)"
    then consider "starts_with (c # cs) sub" | "contains sub cs" by auto
    then show "\<exists>pre post. c # cs = pre @ sub @ post"
    proof cases
      case 1
      then obtain t where "c # cs = sub @ t" by (auto simp: starts_with_iff)
      then have "c # cs = [] @ sub @ t" by simp
      then show ?thesis by blast
    next
      case 2
      then obtain pre post where "cs = pre @ sub @ post" using Cons.IH by blast
      then have "c # cs = (c # pre) @ sub @ post" by simp
      then show ?thesis by blast
    qed
  next
    assume "\<exists>pre post. c # cs = pre @ sub @ post"
    then obtain pre post where eq: "c # cs = pre @ sub @ post" by blast
    show "contains sub (c # cs)"
    proof (cases pre)
      case Nil
      then have "starts_with (c # cs) sub" using eq by (auto simp: starts_with_iff)
      then show ?thesis by simp
    next
      case (Cons d pre')
      then have "cs = pre' @ sub @ post" using eq by simp
      then have "contains sub cs" using Cons.IH by blast
      then show ?thesis by simp
    qed
  qed
qed

lemma lit_match_exact: "lit_match False l s = Some s' \<longleftrightarrow> s = l @ s'"
proof (induction l arbitrary: s)
  case Nil
  then show ?case by auto
next
  case (Cons p ps)
  then show ?case by (cases s) auto
qed

lemma in_run_Lit:
  "(s', g') \<in> set (rx_run False (Lit l) (s, g)) \<longleftrightarrow> s = l @ s' \<and> g' = g"
proof -
  have "(s', g') \<in> set (rx_run False (Lit l) (s, g)) \<longleftrightarrow> lit_match False l s = Some s' \<and> g' = g"
    by (cases "lit_match False l s") auto
  then show ?thesis by (simp only: lit_match_exact)
qed

lemma in_run_Alt:
  "st' \<in> set (rx_run ic (Alt a b) st) \<longleftrightarrow>
     st' \<in> set (rx_run ic a st) \<or> st' \<in> set (rx_run ic b st)"
  by simp

lemma in_run_Seq:
  "st' \<in> set (rx_run ic (Seq a b) st) \<longleftrightarrow>
     (\<exists>s1 g1. (s1, g1) \<in> set (rx_run ic a st) \<and> st' \<in> set (rx_run ic b (s1, g1)))"
  by auto

lemma in_run_Group:
  "(s', g') \<in> set (rx_run ic (Group r) (s, g)) \<longleftrightarrow>
     (\<exists>g0. (s', g0) \<in> set (rx_run ic r (s, g)) \<and> g' = g0 @ [take (length s - length s') s])"
  by auto

lemma in_run_Plus:
  "(s', g') \<in> set (rx_run ic (Plus k) (s, g)) \<longleftrightarrow>
     g' = g \<and> (\<exists>n. 1 \<le> n \<and> n \<le> length (takeWhile (in_cls k) s) \<and> s' = drop n s)"
  by (auto simp: image_iff)

lemma rx_search_SomeD:
  "rx_search ic r s = Some g \<Longrightarrow> \<exists>pre t s'. s = pre @ t \<and> (s', g) \<in> set (rx_run ic r (t, []))"
proof (induction s)
  case Nil
  then obtain s' rest where "rx_run ic r ([], []) = (s', g) # rest"
    by (auto split: list.splits)
  then have "(s', g) \<in> set (rx_run ic r ([], []))" by simp
  then show ?case by blast
next
  case (Cons c cs)
  show ?case
  proof (cases "rx_run ic r (c # cs, [])")
    case Nil
    then have "rx_search ic r cs = Some g" using Cons.prems by simp
    then obtain pre t s' where "cs = pre @ t" "(s', g) \<in> set (rx_run ic r (t, []))"
      using Cons.IH by blast
    then have "c # cs = (c # pre) @ t \<and> (s', g) \<in> set (rx_run ic r (t, []))" by simp
    then show ?thesis by blast
  next
    case (Cons st rest)
    then obtain s' where "st = (s', g)" using Cons.prems by (cases st) auto
    then have "c # cs = [] @ (c # cs) \<and> (s', g) \<in> set (rx_run ic r (c # cs, []))"
      using Cons by simp
    then show ?thesis by blast
  qed
qed

lemma rx_aggregate_run:
  assumes "(s', g) \<in> set (rx_run False rx_aggregate (t, []))"
  shows "\<exists>fn col. g = [fn, col] \<and> (fn = ''SUM'' \<or> fn = ''AVG'' \<or> fn = ''COUNT'')
           \<and> t = fn @ ''('' @ col @ '')'' @ s'"
proof -
  let ?A = "Group (Alt (Lit ''SUM'') (Alt (Lit ''AVG'') (Lit ''COUNT'')))"
  let ?B = "Seq (Lit ''('') (Seq (Group (Plus Word)) (Lit '')''))"
  have shape: "rx_aggregate = Seq ?A ?B" by (simp add: rx_aggregate_def)
  from assms obtain s1 g1 where a: "(s1, g1) \<in> set (rx_run False ?A (t, []))"
    and b: "(s', g) \<in> set (rx_run False ?B (s1, g1))"
    unfolding shape in_run_Seq by blast
  from a obtain fn where fn: "fn = ''SUM'' \<or> fn = ''AVG'' \<or> fn = ''COUNT''"
    and t: "t = fn @ s1" and g1: "g1 = [take (length t - length s1) t]"
    unfolding in_run_Group in_run_Alt in_run_Lit by blast
  from t have g1': "g1 = [fn]" by (simp add: g1)
  from b obtain s2 g2 where c: "(s2, g2) \<in> set (rx_run False (Lit ''('') (s1, g1))"
    and d: "(s', g) \<in> set (rx_run False (Seq (Group (Plus Word)) (Lit '')'')) (s2, g2))"
    unfolding in_run_Seq by blast
  from c have s1: "s1 = ''('' @ s2" and g2: "g2 = g1" unfolding in_run_Lit by blast+
  from d obtain s3 g3 where e: "(s3, g3) \<in> set (rx_run False (Group (Plus Word)) (s2, g2))"
    and f: "(s', g) \<in> set (rx_run False (Lit '')'') (s3, g3))"
    unfolding in_run_Seq by blast
  from e obtain n where s3: "s3 = drop n s2"
    and g3: "g3 = g2 @ [take (length s2 - length s3) s2]"
    unfolding in_run_Group in_run_Plus by blast
  have col: "take (length s2 - length s3) s2 @ s3 = s2"
    by (cases "n \<le> length s2") (simp_all add: s3)
  from f have s3': "s3 = '')'' @ s'" and g: "g = g3" unfolding in_run_Lit by blast+
  let ?col = "take (length s2 - length s3) s2"
  have "g = [fn, ?col]" by (simp add: g g3 g2 g1')
  moreover have "t = fn @ ''('' @ ?col @ '')'' @ s'"
    using t s1 col s3' by (metis append.assoc)
  ultimately show ?thesis using fn by blast
qed

lemma rx_aggregate_search:
  assumes "rx_search False rx_aggregate sql = Some m"
  shows "\<exists>fn col. m = [fn, col] \<and> (fn = ''SUM'' \<or> fn = ''AVG'' \<or> fn = ''COUNT'')
           \<and> contains (fn @ ''('' @ col @ '')'') sql \<and> contains fn sql"
proof -
  from rx_search_SomeD[OF assms] obtain pre t s' where sql: "sql = pre @ t"
    and run: "(s', m) \<in> set (rx_run False rx_aggregate (t, []))"
    by blast
  from rx_aggregate_run[OF run] obtain fn col where m: "m = [fn, col]"
    and fn: "fn = ''SUM'' \<or> fn = ''AVG'' \<or> fn = ''COUNT''"
    and t: "t = fn @ ''('' @ col @ '')'' @ s'"
    by blast
  have "sql = pre @ (fn @ ''('' @ col @ '')'') @ s'" by (simp add: sql t)
  then have c1: "contains (fn @ ''('' @ col @ '')'') sql" unfolding contains_iff by blast
  have "sql = pre @ fn @ (''('' @ col @ '')'' @ s')" by (simp add: sql t)
  then have c2: "contains fn sql" unfolding contains_iff by blast
  from m fn c1 c2 show ?thesis by blast
qed

section \<open>Aggregate queries\<close>

lemma short_sum_sql_tests:
  "contains ''SELECT'' ''SELECT SUM(amount) FROM sales''"
  "rx_search False rx_aggregate ''SELECT SUM(amount) FROM sales'' = Some [''SUM'', ''amount'']"
  "lower ''SUM'' @ ''('' @ ''amount'' @ '')'' = ''sum(amount)''"
  by code_simp+

text \<open>
  Claim C5 as stated fails at the upper end of the range: \<^verbatim>\<open>randint(1000, 100000)\<close>
  includes 100000, and a draw that selects it makes the aggregate row hold 100000.
\<close>

theorem aggregate_value_counterexample:
  "contains ''SELECT'' ''SELECT SUM(amount) FROM sales''
   \<and> rx_search False rx_aggregate ''SELECT SUM(amount) FROM sales'' = Some [''SUM'', ''amount'']
   \<and> execute_mock_query ''SELECT SUM(amount) FROM sales'' (constant_draws 99000) =
       Inr ([[(''sum(amount)'', IntV 100000)]], constant_draws 99000)
   \<and> \<not> (100000 :: int) < 100000"
proof -
  have "contains ''SUM'' ''SELECT SUM(amount) FROM sales''" by code_simp
  then have "execute_mock_query ''SELECT SUM(amount) FROM sales'' (constant_draws 99000) =
      Inr ([[(lower ''SUM'' @ ''('' @ ''amount'' @ '')'',
              IntV (fst (randint 1000 100000 (constant_draws 99000))))]],
           snd (randint 1000 100000 (constant_draws 99000)))"
    using short_sum_sql_tests(1,2) by (intro execute_aggregate_branch) simp_all
  then have "execute_mock_query ''SELECT SUM(amount) FROM sales'' (constant_draws 99000) =
      Inr ([[(''sum(amount)'', IntV 100000)]], constant_draws 99000)"
    by (simp only: short_sum_sql_tests(3) randint_constant) simp
  with short_sum_sql_tests(1,2) show ?thesis by simp
qed

text \<open>
  Claim C5, amended.  For every query text that contains \<open>SELECT\<close> and in which the
  aggregate pattern (\<open>SUM\<close>, \<open>AVG\<close> or \<open>COUNT\<close> applied to a run of word characters) is
  found, and for every state of the random generator, \<open>execute_mock_query\<close> returns
  exactly one row with exactly one field; the field is named by the lower-cased aggregate
  applied to the captured column, and its value is an integer \<open>v\<close> with
  \<open>1000 \<le> v \<le> 100000\<close>, both ends included.
\<close>

theorem aggregate_single_row:
  assumes "contains ''SELECT'' sql" and "rx_search False rx_aggregate sql = Some m"
  shows "\<exists>fn col v r'. m = [fn, col] \<and> (fn = ''SUM'' \<or> fn = ''AVG'' \<or> fn = ''COUNT'')
           \<and> execute_mock_query sql r = Inr ([[(lower fn @ ''('' @ col @ '')'', IntV v)]], r')
           \<and> 1000 \<le> v \<and> v \<le> 100000"
proof -
  from rx_aggregate_search[OF assms(2)] obtain fn col where m: "m = [fn, col]"
    and fn: "fn = ''SUM'' \<or> fn = ''AVG'' \<or> fn = ''COUNT''" and c: "contains fn sql"
    by blast
  from fn c have agg: "contains ''SUM'' sql \<or> contains ''AVG'' sql \<or> contains ''COUNT'' sql"
    by blast
  have s: "rx_search False rx_aggregate sql = Some [fn, col]" using assms(2) m by simp
  have ex: "execute_mock_query sql r =
      Inr ([[(lower fn @ ''('' @ col @ '')'', IntV (fst (randint 1000 100000 r)))]],
           snd (randint 1000 100000 r))"
    using assms(1) agg s by (rule execute_aggregate_branch)
  have "1000 \<le> fst (randint 1000 100000 r)" "fst (randint 1000 100000 r) \<le> 100000"
    using randint_bounds[of 1000 100000 r] by simp_all
  with m fn ex show ?thesis by blast
qed

theorem aggregate_single_row_witness:
  "contains ''SELECT'' ''SELECT SUM(amount) FROM sales''
   \<and> rx_search False rx_aggregate ''SELECT SUM(amount) FROM sales'' = Some [''SUM'', ''amount'']
   \<and> (\<exists>v r'. execute_mock_query ''SELECT SUM(amount) FROM sales'' (constant_draws 5) =
                Inr ([[(''sum(amount)'', IntV v)]], r')
              \<and> 1000 \<le> v \<and> v \<le> 100000)"
proof -
  from aggregate_single_row[OF short_sum_sql_tests(1,2), of "constant_draws 5"]
  obtain fn col v r' where "[''SUM'', ''amount''] = [fn, col]"
    and ex: "execute_mock_query ''SELECT SUM(amount) FROM sales'' (constant_draws 5) =
        Inr ([[(lower fn @ ''('' @ col @ '')'', IntV v)]], r')"
    and v: "1000 \<le> v" "v \<le> 100000"
    by blast
  then have "fn = ''SUM''" "col = ''amount''" by simp_all
  with ex have "execute_mock_query ''SELECT SUM(amount) FROM sales'' (constant_draws 5) =
        Inr ([[(''sum(amount)'', IntV v)]], r')"
    by (simp only: short_sum_sql_tests(3))
  with v short_sum_sql_tests(1,2) show ?thesis by blast
qed

section \<open>Unmatched texts\<close>

lemma lower_char_not_upper: "lower_char c \<notin> set upper_letters"
proof (cases "map_of (zip upper_letters lower_letters) c")
  case None
  have len: "length upper_letters = length lower_letters"
    by (simp add: upper_letters_def lower_letters_def)
  from None have "c \<notin> set upper_letters"
    using map_of_zip_is_None[OF len, of c] by simp
  with None show ?thesis by (simp add: lower_char_def)
next
  case (Some d)
  then have "d \<in> set lower_letters"
    by (auto dest!: map_of_SomeD set_zip_rightD)
  then have "d \<notin> set upper_letters"
    by (auto simp: lower_letters_def upper_letters_def)
  with Some show ?thesis by (simp add: lower_char_def)
qed

lemma lower_not_upper: "c \<in> set (lower s) \<Longrightarrow> c \<notin> set upper_letters"
  using lower_char_not_upper by (auto simp: lower_def)

lemma contains_chars: "contains sub s \<Longrightarrow> set sub \<subseteq> set s"
  by (auto simp: contains_iff)

lemma fallback_chars:
  "set (fallback_query x) = set ''SELECT * FROM data WHERE query='' \<union> {CHR 0x27} \<union> set x \<union> set '' LIMIT 10''"
  unfolding fallback_query_def by (simp only: set_append) auto

lemma fallback_upper_chars:
  assumes "c \<in> set (fallback_query (lower q))" and "c \<in> set upper_letters"
  shows "c \<in> set ''SELECTFROMWHERELIMIT''"
proof -
  from assms(1) consider "c \<in> set ''SELECT * FROM data WHERE query=''" | "c = CHR 0x27"
    | "c \<in> set (lower q)" | "c \<in> set '' LIMIT 10''"
    unfolding fallback_chars by blast
  then show ?thesis
  proof cases
    case 1
    with assms(2) show ?thesis by (auto simp: upper_letters_def)
  next
    case 2
    with assms(2) show ?thesis by (simp add: upper_letters_def)
  next
    case 3
    with assms(2) lower_not_upper show ?thesis by blast
  next
    case 4
    with assms(2) show ?thesis by (auto simp: upper_letters_def)
  qed
qed

lemma fallback_not_contains:
  assumes "c \<in> set sub" and "c \<in> set upper_letters" and "c \<notin> set ''SELECTFROMWHERELIMIT''"
  shows "\<not> contains sub (fallback_query (lower q))"
proof
  assume "contains sub (fallback_query (lower q))"
  then have "c \<in> set (fallback_query (lower q))" using assms(1) contains_chars by blast
  then have "c \<in> set ''SELECTFROMWHERELIMIT''" using assms(2) by (rule fallback_upper_chars)
  with assms(3) show False by contradiction
qed

lemma fallback_tests:
  "contains ''SELECT'' (fallback_query x)"
  "contains ''WHERE'' (fallback_query x)"
  "\<not> contains ''SUM'' (fallback_query (lower q))"
  "\<not> contains ''AVG'' (fallback_query (lower q))"
  "\<not> contains ''COUNT'' (fallback_query (lower q))"
  "\<not> contains ''ORDER BY'' (fallback_query (lower q))"
proof -
  show "contains ''SELECT'' (fallback_query x)" by (simp add: fallback_query_def)
  show "contains ''WHERE'' (fallback_query x)" by (simp add: fallback_query_def)
  show "\<not> contains ''SUM'' (fallback_query (lower q))"
    by (rule fallback_not_contains[of "CHR ''U''"]) (simp_all add: upper_letters_def)
  show "\<not> contains ''AVG'' (fallback_query (lower q))"
    by (rule fallback_not_contains[of "CHR ''V''"]) (simp_all add: upper_letters_def)
  show "\<not> contains ''COUNT'' (fallback_query (lower q))"
    by (rule fallback_not_contains[of "CHR ''U''"]) (simp_all add: upper_letters_def)
  show "\<not> contains ''ORDER BY'' (fallback_query (lower q))"
    by (rule fallback_not_contains[of "CHR ''B''"]) (simp_all add: upper_letters_def)
qed

lemma fallback_from_table: "from_table (fallback_query x) = Inr ''data''"
  by (simp add: from_table_def fallback_query_def rx_from_def in_cls_def
        lower_letters_def upper_letters_def digit_chars_def)

lemma fallback_executes:
  "execute_mock_query (fallback_query (lower q)) r = Inl (KeyError ''data'')"
proof -
  have "takes_filter_branch (fallback_query (lower q))"
    using fallback_tests by (simp add: takes_filter_branch_def)
  then have "execute_mock_query (fallback_query (lower q)) r =
      generate_mock_records ''data'' (fst (randint 1 10 r)) (snd (randint 1 10 r))"
    using fallback_from_table by (rule execute_filter_branch)
  moreover have "map_of schemas ''data'' = None" by (simp add: schemas_def)
  ultimately show ?thesis by (simp add: generate_mock_records_def)
qed

text \<open>
  Claim C2, evaluated on the code.  A text that no pattern matches is translated to the
  fallback query; the executor sends that query to its filter branch, reads the table
  name \<open>data\<close> from it and looks it up in the schemas, which have no such table.  So
  every unmatched text, whatever the random draws, ends in \<open>KeyError\<close> instead of rows.
\<close>

theorem unmatched_query_raises:
  assumes "dispatch patterns (lower q) = None"
  shows "translate_query q = Inr (fallback_query (lower q))
         \<and> takes_filter_branch (fallback_query (lower q))
         \<and> process_query q r = Inl (KeyError ''data'')"
proof -
  have t: "translate_query q = Inr (fallback_query (lower q))"
    using assms by (simp add: translate_query_def)
  have f: "takes_filter_branch (fallback_query (lower q))"
    using fallback_tests by (simp add: takes_filter_branch_def)
  have "process_query q r = Inl (KeyError ''data'')"
    by (simp add: process_query_def t fallback_executes)
  with t f show ?thesis by simp
qed

theorem unmatched_query_raises_witness:
  "dispatch patterns (lower ''foobar'') = None
   \<and> translate_query ''foobar'' = Inr ''SELECT * FROM data WHERE query='foobar' LIMIT 10''
   \<and> process_query ''foobar'' (constant_draws 3) = Inl (KeyError ''data'')"
proof -
  have d: "dispatch patterns (lower ''foobar'') = None" by code_simp
  have l: "fallback_query (lower ''foobar'') = ''SELECT * FROM data WHERE query='foobar' LIMIT 10''"
    by code_simp
  from unmatched_query_raises[OF d, of "constant_draws 3"] d l show ?thesis by simp
qed

section \<open>Processing a text twice\<close>

lemma generate_mock_records_InrD:
  assumes "generate_mock_records table n r = Inr (rows, s)"
  shows "\<exists>columns. map_of schemas table = Some columns \<and> length rows = nat n
           \<and> (\<forall>row \<in> set rows. map fst row = columns)"
proof (cases "map_of schemas table")
  case None
  with assms show ?thesis by (simp add: generate_mock_records_def)
next
  case (Some columns)
  from generate_mock_records_rows[OF Some, of n r] assms Some show ?thesis by auto
qed

text \<open>What the executor does with a query text, apart from the random draws.\<close>

lemma execute_cases:
  obtains
    (mock) "\<not> takes_filter_branch sql"
      "\<And>r. execute_mock_query sql r =
        Inr ([[(''result'', StrV ''Mock data for query''), (''query'', StrV sql)]], r)"
  | (aggregate) name where "\<not> takes_filter_branch sql"
      "\<And>r. execute_mock_query sql r =
        Inr ([[(name, IntV (fst (randint 1000 100000 r)))]], snd (randint 1000 100000 r))"
  | (raises) e where "\<And>r. execute_mock_query sql r = Inl e"
  | (counted) t n where "\<not> takes_filter_branch sql"
      "\<And>r. execute_mock_query sql r = generate_mock_records t n r"
  | (filtered) t where "takes_filter_branch sql"
      "\<And>r. execute_mock_query sql r =
        generate_mock_records t (fst (randint 1 10 r)) (snd (randint 1 10 r))"
proof (cases "contains ''SELECT'' sql")
  case False
  then have nf: "\<not> takes_filter_branch sql" by (simp add: takes_filter_branch_def)
  from False have "\<And>r. execute_mock_query sql r =
      Inr ([[(''result'', StrV ''Mock data for query''), (''query'', StrV sql)]], r)"
    by (simp add: execute_mock_query_def)
  with nf show ?thesis by (rule mock)
next
  case sel: True
  show ?thesis
  proof (cases "contains ''SUM'' sql \<or> contains ''AVG'' sql \<or> contains ''COUNT'' sql")
    case agg: True
    then have nf: "\<not> takes_filter_branch sql" by (simp add: takes_filter_branch_def)
    show ?thesis
    proof (cases "rx_search False rx_aggregate sql")
      case None
      show ?thesis
      proof (cases "from_table sql")
        case (Inl e)
        with sel agg None have "\<And>r. execute_mock_query sql r = Inl e"
          by (simp add: execute_mock_query_def default_select_def)
        then show ?thesis by (rule raises)
      next
        case (Inr t)
        with sel agg None have "\<And>r. execute_mock_query sql r = generate_mock_records t 5 r"
          by (simp add: execute_mock_query_def default_select_def)
        with nf show ?thesis by (rule counted)
      qed
    next
      case (Some m)
      from rx_aggregate_search[OF Some] obtain fn col where m: "m = [fn, col]" by blast
      with sel agg Some have "\<And>r. execute_mock_query sql r =
          Inr ([[(lower fn @ ''('' @ col @ '')'', IntV (fst (randint 1000 100000 r)))]],
               snd (randint 1000 100000 r))"
        by (simp add: execute_aggregate_branch)
      with nf show ?thesis by (rule aggregate)
    qed
  next
    case noagg: False
    show ?thesis
    proof (cases "contains ''ORDER BY'' sql")
      case ord: True
      then have nf: "\<not> takes_filter_branch sql" by (simp add: takes_filter_branch_def)
      show ?thesis
      proof (cases "limit_of sql")
        case (Inl e)
        with sel noagg ord have "\<And>r. execute_mock_query sql r = Inl e"
          by (simp add: execute_mock_query_def)
        then show ?thesis by (rule raises)
      next
        case lim: (Inr n)
        show ?thesis
        proof (cases "from_table sql")
          case (Inl e)
          with sel noagg ord lim have "\<And>r. execute_mock_query sql r = Inl e"
            by (simp add: execute_mock_query_def)
          then show ?thesis by (rule raises)
        next
          case (Inr t)
          with sel noagg ord lim have "\<And>r. execute_mock_query sql r = generate_mock_records t n r"
            by (simp add: execute_mock_query_def)
          with nf show ?thesis by (rule counted)
        qed
      qed
    next
      case noord: False
      show ?thesis
      proof (cases "contains ''WHERE'' sql")
        case wh: True
        with sel noagg noord have f: "takes_filter_branch sql"
          by (simp add: takes_filter_branch_def)
        show ?thesis
        proof (cases "from_table sql")
          case (Inl e)
          with sel noagg noord wh have "\<And>r. execute_mock_query sql r = Inl e"
            by (simp add: execute_mock_query_def)
          then show ?thesis by (rule raises)
        next
          case (Inr t)
          with f have "\<And>r. execute_mock_query sql r =
              generate_mock_records t (fst (randint 1 10 r)) (snd (randint 1 10 r))"
            by (simp add: execute_filter_branch)
          with f show ?thesis by (rule filtered)
        qed
      next
        case nowh: False
        then have nf: "\<not> takes_filter_branch sql" by (simp add: takes_filter_branch_def)
        show ?thesis
        proof (cases "from_table sql")
          case (Inl e)
          with sel noagg noord nowh have "\<And>r. execute_mock_query sql r = Inl e"
            by (simp add: execute_mock_query_def default_select_def)
          then show ?thesis by (rule raises)
        next
          case (Inr t)
          with sel noagg noord nowh have "\<And>r. execute_mock_query sql r = generate_mock_records t 5 r"
            by (simp add: execute_mock_query_def default_select_def)
          with nf show ?thesis by (rule counted)
        qed
      qed
    qed
  qed
qed

lemma execute_twice:
  assumes e1: "execute_mock_query sql r1 = Inr (rows1, s1)"
    and e2: "execute_mock_query sql r2 = Inr (rows2, s2)"
  shows "(\<forall>row1 \<in> set rows1. \<forall>row2 \<in> set rows2. map fst row1 = map fst row2)
       \<and> (\<not> takes_filter_branch sql \<longrightarrow> length rows1 = length rows2)
       \<and> (takes_filter_branch sql \<longrightarrow>
            1 \<le> length rows1 \<and> length rows1 \<le> 10 \<and> 1 \<le> length rows2 \<and> length rows2 \<le> 10)"
proof (cases sql rule: execute_cases)
  case mock
  with e1 e2 have "rows1 = [[(''result'', StrV ''Mock data for query''), (''query'', StrV sql)]]"
    "rows2 = [[(''result'', StrV ''Mock data for query''), (''query'', StrV sql)]]"
    by simp_all
  moreover note mock(1)
  ultimately show ?thesis by simp
next
  case (aggregate name)
  with e1 e2 show ?thesis by auto
next
  case (raises e)
  with e1 show ?thesis by simp
next
  case (counted t n)
  with e1 e2 have g1: "generate_mock_records t n r1 = Inr (rows1, s1)"
    and g2: "generate_mock_records t n r2 = Inr (rows2, s2)"
    by simp_all
  from generate_mock_records_InrD[OF g1] generate_mock_records_InrD[OF g2] counted(1)
  show ?thesis by auto
next
  case (filtered t)
  let ?n1 = "fst (randint 1 10 r1)" and ?n2 = "fst (randint 1 10 r2)"
  from filtered e1 e2
  have g1: "generate_mock_records t ?n1 (snd (randint 1 10 r1)) = Inr (rows1, s1)"
    and g2: "generate_mock_records t ?n2 (snd (randint 1 10 r2)) = Inr (rows2, s2)"
    by simp_all
  have "1 \<le> ?n1" "?n1 \<le> 10" "1 \<le> ?n2" "?n2 \<le> 10"
    using randint_bounds[of 1 10 r1] randint_bounds[of 1 10 r2] by simp_all
  then have b: "1 \<le> nat ?n1" "nat ?n1 \<le> 10" "1 \<le> nat ?n2" "nat ?n2 \<le> 10" by linarith+
  from generate_mock_records_InrD[OF g1] generate_mock_records_InrD[OF g2] filtered(1) b
  show ?thesis by auto
qed

lemma process_query_InrD:
  assumes "process_query q r = Inr (resp, s)"
  shows "translate_query q = Inr (translated_query resp)
       \<and> execute_mock_query (translated_query resp) r = Inr (result resp, s)"
  using assms by (auto simp: process_query_def split: sum.splits prod.splits)

lemma filter_example_rows:
  "\<not> isl (process_query ''list products with inventory below 100 units'' (constant_draws n))
   \<and> length (result (fst (projr (process_query ''list products with inventory below 100 units''
         (constant_draws n))))) = Suc (n mod 10)"
proof -
  from process_filter_example[of "constant_draws n"]
  obtain resp r' where p: "process_query ''list products with inventory below 100 units''
        (constant_draws n) = Inr (resp, r')"
    and len: "length (result resp) = nat (fst (randint 1 10 (constant_draws n)))"
    by blast
  have "nat (fst (randint 1 10 (constant_draws n))) = Suc (n mod 10)"
    by (simp add: randint_constant)
  with p len show ?thesis by simp
qed

text \<open>
  Claim C8 as stated fails on the row count: the text
  \<open>list products with inventory below 100 units\<close> is processed without error under any
  draws, and returns one row when the count draw is 0 and ten rows when it is 9.
\<close>

theorem row_count_counterexample:
  "\<not> isl (process_query ''list products with inventory below 100 units'' (constant_draws 0))
   \<and> \<not> isl (process_query ''list products with inventory below 100 units'' (constant_draws 9))
   \<and> length (result (fst (projr (process_query ''list products with inventory below 100 units''
         (constant_draws 0))))) = 1
   \<and> length (result (fst (projr (process_query ''list products with inventory below 100 units''
         (constant_draws 9))))) = 10"
  using filter_example_rows[of 0] filter_example_rows[of 9] by simp

text \<open>
  Claim C8, amended.  Whenever a text is processed twice, under any two states of the
  random generator, and both runs return, the translated query strings are identical and
  every row of either result has the same sequence of keys as every row of the other.
  The two results have the same number of rows unless the translated query takes the
  executor's filter branch; there the count is drawn anew in each run, and lies between 1
  and 10.
\<close>

theorem process_twice:
  assumes "process_query q r1 = Inr (resp1, s1)" and "process_query q r2 = Inr (resp2, s2)"
  shows "translated_query resp1 = translated_query resp2
       \<and> (\<forall>row1 \<in> set (result resp1). \<forall>row2 \<in> set (result resp2). map fst row1 = map fst row2)
       \<and> (\<not> takes_filter_branch (translated_query resp1) \<longrightarrow>
            length (result resp1) = length (result resp2))
       \<and> (takes_filter_branch (translated_query resp1) \<longrightarrow>
            1 \<le> length (result resp1) \<and> length (result resp1) \<le> 10
            \<and> 1 \<le> length (result resp2) \<and> length (result resp2) \<le> 10)"
proof -
  from process_query_InrD[OF assms(1)] process_query_InrD[OF assms(2)]
  have t1: "translate_query q = Inr (translated_query resp1)"
    and t2: "translate_query q = Inr (translated_query resp2)"
    and e1: "execute_mock_query (translated_query resp1) r1 = Inr (result resp1, s1)"
    and e2: "execute_mock_query (translated_query resp2) r2 = Inr (result resp2, s2)"
    by simp_all
  from t1 t2 have same: "translated_query resp1 = translated_query resp2" by simp
  from e2 have e2': "execute_mock_query (translated_query resp1) r2 = Inr (result resp2, s2)"
    by (simp only: same)
  from execute_twice[OF e1 e2'] same show ?thesis by simp
qed

theorem process_twice_witness:
  "(\<exists>resp1 s1 resp2 s2.
      process_query ''show me the top 5 customers by revenue'' (constant_draws 0) = Inr (resp1, s1)
    \<and> process_query ''show me the top 5 customers by revenue'' (constant_draws 1) = Inr (resp2, s2)
    \<and> \<not> takes_filter_branch (translated_query resp1)
    \<and> translated_query resp1 = translated_query resp2
    \<and> result resp1 \<noteq> [] \<and> result resp2 \<noteq> []
    \<and> map fst (hd (result resp1)) = map fst (hd (result resp2))
    \<and> length (result resp1) = length (result resp2))
   \<and> (\<exists>resp1 s1 resp2 s2.
      process_query ''list products with inventory below 100 units'' (constant_draws 0) = Inr (resp1, s1)
    \<and> process_query ''list products with inventory below 100 units'' (constant_draws 9) = Inr (resp2, s2)
    \<and> takes_filter_branch (translated_query resp1)
    \<and> translated_query resp1 = translated_query resp2
    \<and> 1 \<le> length (result resp1) \<and> length (result resp1) \<le> 10
    \<and> 1 \<le> length (result resp2) \<and> length (result resp2) \<le> 10)"
proof (intro conjI)
  let ?q = "''show me the top 5 customers by revenue''"
  from process_ranking_example[of "constant_draws 0"]
  obtain resp1 s1 where p1: "process_query ?q (constant_draws 0) = Inr (resp1, s1)"
    and tq: "translated_query resp1 = ''SELECT * FROM customers ORDER BY revenue DESC LIMIT 5''"
    and l1: "length (result resp1) = 5"
    by blast
  from process_ranking_example[of "constant_draws 1"]
  obtain resp2 s2 where p2: "process_query ?q (constant_draws 1) = Inr (resp2, s2)"
    and l2: "length (result resp2) = 5"
    by blast
  have nf: "\<not> takes_filter_branch (translated_query resp1)"
    using ranking_sql_tests(3) by (simp add: tq takes_filter_branch_def)
  from l1 l2 have ne: "result resp1 \<noteq> []" "result resp2 \<noteq> []" by auto
  then have hd: "hd (result resp1) \<in> set (result resp1)" "hd (result resp2) \<in> set (result resp2)"
    by simp_all
  from process_twice[OF p1 p2] nf hd
  have "translated_query resp1 = translated_query resp2
      \<and> map fst (hd (result resp1)) = map fst (hd (result resp2))
      \<and> length (result resp1) = length (result resp2)"
    by blast
  with p1 p2 nf ne show "\<exists>resp1 s1 resp2 s2.
      process_query ?q (constant_draws 0) = Inr (resp1, s1)
    \<and> process_query ?q (constant_draws 1) = Inr (resp2, s2)
    \<and> \<not> takes_filter_branch (translated_query resp1)
    \<and> translated_query resp1 = translated_query resp2
    \<and> result resp1 \<noteq> [] \<and> result resp2 \<noteq> []
    \<and> map fst (hd (result resp1)) = map fst (hd (result resp2))
    \<and> length (result resp1) = length (result resp2)"
    by (intro exI[of _ resp1] exI[of _ s1] exI[of _ resp2] exI[of _ s2]) simp
next
  let ?q = "''list products with inventory below 100 units''"
  from process_filter_example[of "constant_draws 0"]
  obtain resp1 s1 where p1: "process_query ?q (constant_draws 0) = Inr (resp1, s1)"
    and tq: "translated_query resp1 = ''SELECT * FROM products WHERE inventory = 100''"
    by blast
  from process_filter_example[of "constant_draws 9"]
  obtain resp2 s2 where p2: "process_query ?q (constant_draws 9) = Inr (resp2, s2)"
    by blast
  have f: "takes_filter_branch (translated_query resp1)"
    using filter_sql_tests(1) by (simp add: tq)
  from process_twice[OF p1 p2] f
  have "translated_query resp1 = translated_query resp2
    \<and> 1 \<le> length (result resp1) \<and> length (result resp1) \<le> 10
    \<and> 1 \<le> length (result resp2) \<and> length (result resp2) \<le> 10"
    by blast
  with p1 p2 f show "\<exists>resp1 s1 resp2 s2.
      process_query ?q (constant_draws 0) = Inr (resp1, s1)
    \<and> process_query ?q (constant_draws 9) = Inr (resp2, s2)
    \<and> takes_filter_branch (translated_query resp1)
    \<and> translated_query resp1 = translated_query resp2
    \<and> 1 \<le> length (result resp1) \<and> length (result resp1) \<le> 10
    \<and> 1 \<le> length (result resp2) \<and> length (result resp2) \<le> 10"
    by (intro exI[of _ resp1] exI[of _ s1] exI[of _ resp2] exI[of _ s2]) simp
qed

end
